theory Spec2Isabelle
  imports Complex_Main "HOL-Library.Sublist" "HOL-Library.Multiset"
begin

section \<open>Data model\<close>

text \<open>
  A Python \<open>str\<close> is a sequence of Unicode code points; it is modelled as the list of
  their numbers, so that the Chinese keywords and titles of the source can be written
  exactly. \<open>cp\<close> turns an ASCII literal into that representation.
\<close>

type_synonym pystr = "nat list"

definition cp :: "string \<Rightarrow> pystr" where
  "cp s = map of_char s"

text \<open>
  A naive \<open>datetime\<close> is a point on a linear time line; it is modelled as the integer
  number of microseconds since a fixed origin. The storage keeps it as ISO-8601 text
  (\<open>isoformat\<close>), read back with \<open>fromisoformat\<close>; for naive datetimes this text
  is fixed-width and zero-padded, so the stored column is order-isomorphic to the
  datetime and the model keeps the datetime itself in the row.
\<close>

type_synonym datetime = int

text \<open>
  \<open>class NewsItem\<close> (news\_fetcher.py). The attribute \<open>id\<close> is named \<open>item_id\<close>
  here. A row of the table \<open>news_items\<close> has the same seven columns (\<open>is_read\<close>
  stored as 0/1), so one record serves for both.
\<close>

record news_item =
  item_id :: pystr
  title :: pystr
  link :: pystr
  source :: pystr
  published_time :: datetime
  category :: pystr
  is_read :: bool

text \<open>
  Exceptions that reach the caller are values. \<open>UnboundLocalError\<close> is what the
  storage methods raise when \<open>sqlite3.connect\<close> itself fails: \<open>conn\<close> was never
  assigned, and the \<open>finally: if conn:\<close> clause reads it, which replaces the pending
  \<open>return\<close> of the \<open>except\<close> branch. \<open>ValueError\<close> and \<open>OverflowError\<close> are what
  \<open>time.sleep\<close> raises on a delay that is negative or too large, and
  \<open>ValueError\<close> is what a date parser raises on a text that does not match.
  \<open>RuntimeError\<close> stands for an exception of any other class derived from
  \<open>Exception\<close>.
\<close>

datatype py_exn = UnboundLocalError | ValueError | OverflowError | RuntimeError

text \<open>
  What the database does during one call of a storage method:
  \<^item> \<open>Healthy\<close>: the connection opens and every statement runs; a statement raises
    only when it violates a constraint of the schema or when one of its parameters
    cannot be bound;
  \<^item> \<open>CannotConnect\<close>: \<open>sqlite3.connect\<close> raises;
  \<^item> \<open>StatementFails\<close>: the connection opens and every \<open>cursor.execute\<close> raises
    (a locked or corrupt file).
\<close>

datatype db_status = Healthy | CannotConnect | StatementFails

text \<open>
  Binding a \<open>str\<close> to a statement encodes it; sqlite3 raises (\<open>UnicodeEncodeError\<close>
  for a lone surrogate such as U+D800) when it cannot. Which strings sqlite3 can
  bind is a parameter of the model, the predicate \<open>bindable\<close>.
\<close>

type_synonym bind_pred = "pystr \<Rightarrow> bool"

section \<open>Persistence layer (data\_storage.py)\<close>

text \<open>
  The \<open>INSERT\<close> of \<open>save_news_items\<close> binds the item's id, title, link, source,
  ISO date text (ASCII), category and read flag. It raises when one of the strings
  cannot be bound, and \<open>id TEXT PRIMARY KEY\<close> makes it raise \<open>IntegrityError\<close> when
  the id is already stored.
\<close>

definition insert_raises :: "bind_pred \<Rightarrow> news_item list \<Rightarrow> news_item \<Rightarrow> bool" where
  "insert_raises bindable rows item \<longleftrightarrow>
     \<not> bindable (item_id item) \<or> \<not> bindable (title item) \<or> \<not> bindable (link item) \<or>
     \<not> bindable (source item) \<or> \<not> bindable (category item) \<or>
     item_id item \<in> set (map item_id rows)"

text \<open>
  The table \<open>news_items\<close> is the list of its rows in insertion order. The loop of
  \<open>save_news_items\<close> on a healthy connection, one item at a time:
  \<^item> \<open>SELECT id FROM news_items WHERE title = ?\<close> raises when the title cannot be
    bound; the inner \<open>except Exception\<close> logs it and the loop goes on;
  \<^item> the \<open>SELECT\<close> finds a row: \<open>continue\<close>;
  \<^item> otherwise \<open>INSERT\<close>; when it raises, the inner \<open>except\<close> logs it and the loop
    goes on with the next item;
  \<^item> otherwise the row is appended and \<open>saved_count\<close> grows by one.
  The statements of one call run on one connection, so each \<open>SELECT\<close> sees the rows
  inserted before it in the same call.
\<close>

fun save_loop ::
  "bind_pred \<Rightarrow> news_item list \<Rightarrow> news_item list \<Rightarrow> nat \<Rightarrow> nat \<times> news_item list" where
  "save_loop bindable rows [] saved_count = (saved_count, rows)"
| "save_loop bindable rows (item # items) saved_count =
     (if \<not> bindable (title item) then save_loop bindable rows items saved_count
      else if title item \<in> set (map title rows) then save_loop bindable rows items saved_count
      else if insert_raises bindable rows item then save_loop bindable rows items saved_count
      else save_loop bindable (rows @ [item]) items (saved_count + 1))"

text \<open>
  \<open>DataStorage.save_news_items\<close>: the returned value (or the exception that reaches
  the caller) and the table afterwards. An empty batch returns 0 before any
  connection is opened. When every statement fails, each item's \<open>SELECT\<close> raises
  inside the inner \<open>try\<close>, nothing is inserted and the count stays 0.
\<close>

definition save_news_items ::
  "bind_pred \<Rightarrow> db_status \<Rightarrow> news_item list \<Rightarrow> news_item list
     \<Rightarrow> (py_exn + nat) \<times> news_item list" where
  "save_news_items bindable st rows items =
     (if items = [] then (Inr 0, rows)
      else case st of
        CannotConnect \<Rightarrow> (Inl UnboundLocalError, rows)
      | StatementFails \<Rightarrow> (Inr 0, rows)
      | Healthy \<Rightarrow> (case save_loop bindable rows items 0 of (n, rows') \<Rightarrow> (Inr n, rows')))"

text \<open>
  The effect of \<open>UPDATE news_items SET is_read = 1 WHERE id = ?\<close> on one row.
\<close>

definition update_is_read :: "pystr \<Rightarrow> news_item \<Rightarrow> news_item" where
  "update_is_read news_id r = (if item_id r = news_id then r\<lparr>is_read := True\<rparr> else r)"

text \<open>
  \<open>DataStorage.mark_as_read\<close>: the \<open>UPDATE\<close>, a commit, then \<open>return True\<close>; the
  number of rows the update touched is never read. When the id cannot be bound the
  \<open>UPDATE\<close> raises and the \<open>except\<close> branch returns \<open>False\<close>.
\<close>

definition mark_as_read ::
  "bind_pred \<Rightarrow> db_status \<Rightarrow> news_item list \<Rightarrow> pystr \<Rightarrow> (py_exn + bool) \<times> news_item list" where
  "mark_as_read bindable st rows news_id =
     (case st of
        CannotConnect \<Rightarrow> (Inl UnboundLocalError, rows)
      | StatementFails \<Rightarrow> (Inr False, rows)
      | Healthy \<Rightarrow>
          (if bindable news_id then (Inr True, map (update_is_read news_id) rows)
           else (Inr False, rows)))"

text \<open>
  \<open>LIMIT ?\<close>: a negative bound means no bound in SQLite.
\<close>

definition sql_limit :: "int \<Rightarrow> 'a list \<Rightarrow> 'a list" where
  "sql_limit n xs = (if n < 0 then xs else take (nat n) xs)"

text \<open>
  \<open>ORDER BY published_time DESC\<close>. SQLite leaves the order of rows with equal
  keys open; the model keeps them in insertion order.
\<close>

definition order_by_published_desc :: "news_item list \<Rightarrow> news_item list" where
  "order_by_published_desc rows = sort_key (\<lambda>r. - published_time r) rows"

text \<open>
  \<open>DataStorage.get_unread_news\<close>. Each selected row is rebuilt as a \<open>NewsItem\<close> whose
  generated id is overwritten with the stored one, so the result is the list of
  selected rows. A limit outside the 64-bit range cannot be bound to the statement
  (\<open>OverflowError\<close>), which the \<open>except\<close> branch turns into the empty list.
\<close>

definition get_unread_news ::
  "db_status \<Rightarrow> news_item list \<Rightarrow> int \<Rightarrow> py_exn + news_item list" where
  "get_unread_news st rows limit =
     (case st of
        CannotConnect \<Rightarrow> Inl UnboundLocalError
      | StatementFails \<Rightarrow> Inr []
      | Healthy \<Rightarrow>
          (if limit < - (2 ^ 63) \<or> 2 ^ 63 \<le> limit then Inr []
           else Inr (sql_limit limit
                  (order_by_published_desc (filter (\<lambda>r. \<not> is_read r) rows)))))"

section \<open>Settings store (data\_storage.py, save\_setting and get\_setting)\<close>

text \<open>
  The store calls two functions of the standard library's \<open>json\<close> module, which are
  parameters of the model, over any type \<open>'v\<close> of Python values: \<open>dumps v\<close> is the
  text that \<open>json.dumps(value)\<close> returns, or \<open>None\<close> when it raises (\<open>TypeError\<close> on
  an object it cannot serialise, \<open>ValueError\<close> on an integer beyond the digit limit,
  \<open>RecursionError\<close> on deep nesting), and \<open>loads t\<close> is the value that
  \<open>json.loads(text)\<close> returns, or \<open>None\<close> when it raises.

  The table \<open>settings\<close> has \<open>key TEXT PRIMARY KEY\<close> and \<open>value TEXT NOT NULL\<close>; it
  is a map from keys to stored texts.
\<close>

text \<open>
  \<open>DataStorage.save_setting\<close>. The connection is opened first, then the value is
  serialised, then the \<open>SELECT\<close> binds the key, and the \<open>UPDATE\<close> (the key is
  stored) or the \<open>INSERT\<close> (it is not) binds the text and the key. Every exception
  after the connection has opened ends in \<open>return False\<close>, before the commit.
\<close>

definition save_setting ::
  "bind_pred \<Rightarrow> ('v \<Rightarrow> pystr option) \<Rightarrow> db_status \<Rightarrow> (pystr \<rightharpoonup> pystr) \<Rightarrow> pystr \<Rightarrow> 'v
     \<Rightarrow> (py_exn + bool) \<times> (pystr \<rightharpoonup> pystr)" where
  "save_setting bindable dumps st settings key v =
     (case st of
        CannotConnect \<Rightarrow> (Inl UnboundLocalError, settings)
      | _ \<Rightarrow>
        (case dumps v of
           None \<Rightarrow> (Inr False, settings)
         | Some value_json \<Rightarrow>
             (case st of
                Healthy \<Rightarrow>
                  (if \<not> bindable key then (Inr False, settings)
                   else
                     (case settings key of
                        Some old \<Rightarrow>
                          (if bindable value_json then (Inr True, settings(key \<mapsto> value_json))
                           else (Inr False, settings))
                      | None \<Rightarrow>
                          (if bindable value_json then (Inr True, settings(key \<mapsto> value_json))
                           else (Inr False, settings))))
              | _ \<Rightarrow> (Inr False, settings))))"

text \<open>
  \<open>DataStorage.get_setting\<close>: the parameter \<open>default\<close> is named \<open>dflt\<close> here. Every
  exception after the connection has opened, of the \<open>SELECT\<close> or of \<open>json.loads\<close>,
  ends in \<open>return default\<close>.
\<close>

definition get_setting ::
  "bind_pred \<Rightarrow> (pystr \<Rightarrow> 'v option) \<Rightarrow> db_status \<Rightarrow> (pystr \<rightharpoonup> pystr) \<Rightarrow> pystr \<Rightarrow> 'v
     \<Rightarrow> py_exn + 'v" where
  "get_setting bindable loads st settings key dflt =
     (case st of
        CannotConnect \<Rightarrow> Inl UnboundLocalError
      | StatementFails \<Rightarrow> Inr dflt
      | Healthy \<Rightarrow>
          (if \<not> bindable key then Inr dflt
           else
             (case settings key of
                None \<Rightarrow> Inr dflt
              | Some row \<Rightarrow>
                  (case loads row of
                     Some v \<Rightarrow> Inr v
                   | None \<Rightarrow> Inr dflt))))"
section \<open>Categorisation (news\_fetcher.py, \_categorize\_by\_keywords)\<close>

text \<open>
  Python's \<open>needle in haystack\<close> on strings: \<open>needle\<close> occurs as a contiguous
  run of code points; the empty string occurs in every string.
\<close>

fun py_in :: "pystr \<Rightarrow> pystr \<Rightarrow> bool" where
  "py_in needle [] = (needle = [])"
| "py_in needle (c # cs) = (prefix needle (c # cs) \<or> py_in needle cs)"

text \<open>
  \<open>self.ai_keywords\<close> and \<open>self.tech_keywords\<close>, in the order of the source. An
  ASCII keyword is written as its literal; a Chinese keyword as its code points (the
  first AI keyword is U+4EBA U+5DE5 U+667A U+80FD, the fourth, U+6DF1 U+5EA6 U+5B66
  U+4E60, is the one for deep learning; the sixth tech keyword, U+533A U+5757 U+94FE,
  is the one for blockchain).
\<close>

definition ai_keywords :: "pystr list" where
  "ai_keywords =
     [[20154, 24037, 26234, 33021], cp ''AI'', [26426, 22120, 23398, 20064],
      [28145, 24230, 23398, 20064], [31070, 32463, 32593, 32476],
      [33258, 28982, 35821, 35328, 22788, 29702], cp ''NLP'',
      [35745, 31639, 26426, 35270, 35273], [35821, 38899, 35782, 21035],
      [24378, 21270, 23398, 20064], [22823, 35821, 35328, 27169, 22411], cp ''LLM'',
      cp ''GPT'', cp ''BERT'', cp ''transformer'', cp ''diffusion'',
      [29983, 25104, 24335, 65, 73], [29983, 25104, 24335, 20154, 24037, 26234, 33021]]"

definition tech_keywords :: "pystr list" where
  "tech_keywords =
     [[31185, 25216], [25216, 26415], [21019, 26032], [25968, 23383, 21270],
      [37327, 23376, 35745, 31639], [21306, 22359, 38142], [20803, 23431, 23449],
      cp ''VR'', cp ''AR'', cp ''XR'', [26426, 22120, 20154],
      [33258, 21160, 39550, 39542], [29289, 32852, 32593], cp ''IoT'', cp ''5G'', cp ''6G'',
      [21322, 23548, 20307], [33455, 29255], [20113, 35745, 31639],
      [36793, 32536, 35745, 31639]]"

text \<open>
  One \<open>for keyword in ...: if keyword.lower() in title_lower: return ...\<close> loop:
  whether it returns. \<open>str.lower\<close> belongs to the Unicode library and is a parameter
  of the model.
\<close>

fun scan_keywords :: "(pystr \<Rightarrow> pystr) \<Rightarrow> pystr list \<Rightarrow> pystr \<Rightarrow> bool" where
  "scan_keywords lower [] title_lower = False"
| "scan_keywords lower (keyword # keywords) title_lower =
     (if py_in (lower keyword) title_lower then True
      else scan_keywords lower keywords title_lower)"

text \<open>
  \<open>NewsFetcher._categorize_by_keywords\<close>. The three results are the strings
  \<open>AI\<close>, U+79D1 U+6280 (technology) and \<open>AI/\<close> followed by U+79D1 U+6280.
\<close>

definition categorize_by_keywords :: "(pystr \<Rightarrow> pystr) \<Rightarrow> pystr \<Rightarrow> pystr" where
  "categorize_by_keywords lower title_text =
     (let title_lower = lower title_text in
      if scan_keywords lower ai_keywords title_lower then cp ''AI''
      else if scan_keywords lower tech_keywords title_lower then [31185, 25216]
      else cp ''AI/'' @ [31185, 25216])"

section \<open>Merge and deduplication (news\_fetcher.py, fetch\_all\_news)\<close>

text \<open>
  \<open>all_news.sort(key=lambda x: x.published_time, reverse=True)\<close>. Python's sort is
  stable, also with \<open>reverse=True\<close>: the result is in descending key order and items
  with equal keys keep their input order. The insertion sort of the library on the
  negated key is such a sort, and \<open>stable_descending_sort_unique\<close> below shows that
  these properties leave no other result.
\<close>

definition sort_published_reverse :: "news_item list \<Rightarrow> news_item list" where
  "sort_published_reverse all_news = sort_key (\<lambda>x. - published_time x) all_news"

text \<open>
  The deduplication loop of \<open>fetch_all_news\<close>, with its two accumulators: the set
  \<open>unique_titles\<close> and the list \<open>unique_news\<close>.
\<close>

fun dedup_loop :: "news_item list \<Rightarrow> pystr set \<Rightarrow> news_item list \<Rightarrow> news_item list" where
  "dedup_loop [] unique_titles unique_news = unique_news"
| "dedup_loop (item # all_news) unique_titles unique_news =
     (if title item \<notin> unique_titles
      then dedup_loop all_news (insert (title item) unique_titles) (unique_news @ [item])
      else dedup_loop all_news unique_titles unique_news)"

text \<open>
  The sort-and-dedup phase of \<open>fetch_all_news\<close>, as a function of the concatenated
  per-source results.
\<close>

definition merge_and_dedup :: "news_item list \<Rightarrow> news_item list" where
  "merge_and_dedup all_news = dedup_loop (sort_published_reverse all_news) {} []"


section \<open>Fetch adapter (news\_fetcher.py)\<close>


















section \<open>Notification dispatcher (notification.py)\<close>

text \<open>
  What the dispatcher does to the outside, in order: it starts the thread that shows a
  toast (title, message, and the click callback, which is the closure over the item's
  link and id), and it sleeps. The delay is a Python float and is modelled as a real
  number; a delay that is not a number, on which \<open>time.sleep\<close> raises \<open>ValueError\<close>
  like on a negative one, is outside the model.
\<close>

datatype event = Toast pystr pystr "pystr \<times> pystr" | Sleep real

text \<open>
  The state of a \<open>NotificationManager\<close>: the registry \<open>active_notifications\<close> from
  item id to callback, and the events so far.
\<close>

record manager =
  active_notifications :: "pystr \<rightharpoonup> pystr \<times> pystr"
  trace :: "event list"

text \<open>
  The environment of one batch: whether toasts are available at all
  (\<open>NOTIFICATION_AVAILABLE\<close> and \<open>self.toaster is not None\<close>), whether the
  \<open>k\<close>-th call's \<open>threading.Thread(...).start()\<close> succeeds (it raises
  \<open>RuntimeError\<close> when no thread can be started, which the \<open>except\<close> branch turns
  into \<open>False\<close>), and the longest delay that \<open>time.sleep\<close> accepts on the platform.
\<close>

record toast_env =
  notification_available :: bool
  thread_starts :: "nat \<Rightarrow> bool"
  sleep_max :: real

text \<open>
  \<open>time.sleep(secs)\<close>: it raises \<open>ValueError\<close> on a negative delay and
  \<open>OverflowError\<close> on one that is too long, and sleeps otherwise.
\<close>

definition time_sleep :: "toast_env \<Rightarrow> real \<Rightarrow> py_exn option" where
  "time_sleep env secs =
     (if secs < 0 then Some ValueError
      else if sleep_max env < secs then Some OverflowError
      else None)"

text \<open>
  \<open>NotificationManager.show_news_notification\<close>, as the \<open>k\<close>-th call of a batch.
  The callback is registered before the thread is started, so it stays registered
  when the start fails.
\<close>

definition show_news_notification ::
  "toast_env \<Rightarrow> nat \<Rightarrow> manager \<Rightarrow> news_item \<Rightarrow> bool \<times> manager" where
  "show_news_notification env k m news_item =
     (if \<not> notification_available env then (False, m)
      else
        let callback_func = (link news_item, item_id news_item);
            m1 = m\<lparr>active_notifications := (active_notifications m)(item_id news_item \<mapsto> callback_func)\<rparr>
        in if thread_starts env k
           then (True, m1\<lparr>trace := trace m1 @
                   [Toast (source news_item @ cp '' - '' @ category news_item) (title news_item)
                      callback_func]\<rparr>)
           else (False, m1))"

text \<open>
  The loop of \<open>show_multiple_news_notifications\<close>; \<open>len\<close> is \<open>len(news_items)\<close>.
  \<open>time.sleep\<close> is called outside any \<open>try\<close>, so what it raises reaches the caller.
\<close>

fun notify_loop ::
  "toast_env \<Rightarrow> real \<Rightarrow> nat \<Rightarrow> nat \<Rightarrow> news_item list \<Rightarrow> nat \<Rightarrow> manager
     \<Rightarrow> (py_exn + nat) \<times> manager" where
  "notify_loop env delay len k [] success_count m = (Inr success_count, m)"
| "notify_loop env delay len k (item # rest) success_count m =
     (case show_news_notification env k m item of
        (True, m1) \<Rightarrow>
          if success_count + 1 < len
          then (case time_sleep env delay of
                  Some ex \<Rightarrow> (Inl ex, m1)
                | None \<Rightarrow>
                    notify_loop env delay len (k + 1) rest (success_count + 1)
                      (m1\<lparr>trace := trace m1 @ [Sleep delay]\<rparr>))
          else notify_loop env delay len (k + 1) rest (success_count + 1) m1
      | (False, m1) \<Rightarrow> notify_loop env delay len (k + 1) rest success_count m1)"

text \<open>
  \<open>NotificationManager.show_multiple_news_notifications\<close>.
\<close>

definition show_multiple_news_notifications ::
  "toast_env \<Rightarrow> manager \<Rightarrow> news_item list \<Rightarrow> real \<Rightarrow> (py_exn + nat) \<times> manager" where
  "show_multiple_news_notifications env m news_items delay =
     (if news_items = [] then (Inr 0, m)
      else notify_loop env delay (length news_items) 0 news_items 0 m)"


section \<open>Notions used to state the properties\<close>

text \<open>
  A necessary condition for binding: the string can be encoded as UTF-8, that is, it
  holds no surrogate code point (U+D800 to U+DFFF) and nothing beyond U+10FFFF. It
  stands for \<open>bindable\<close> in the examples, whose strings are short and ASCII.
\<close>

definition utf8_encodable :: bind_pred where
  "utf8_encodable s \<longleftrightarrow> (\<forall>c\<in>set s. c < 55296 \<or> (57343 < c \<and> c < 1114112))"

text \<open>
  A later client of the storage calls \<open>save_news_items\<close> and \<open>mark_as_read\<close> in any
  order, each call under any behaviour of the database; \<open>run_ops\<close> is the table after
  such a history.
\<close>

datatype storage_op = SaveNewsItems db_status "news_item list" | MarkAsRead db_status pystr

fun apply_op :: "bind_pred \<Rightarrow> news_item list \<Rightarrow> storage_op \<Rightarrow> news_item list" where
  "apply_op bindable rows (SaveNewsItems st items) = snd (save_news_items bindable st rows items)"
| "apply_op bindable rows (MarkAsRead st news_id) = snd (mark_as_read bindable st rows news_id)"

definition run_ops :: "bind_pred \<Rightarrow> news_item list \<Rightarrow> storage_op list \<Rightarrow> news_item list" where
  "run_ops bindable rows ops = foldl (apply_op bindable) rows ops"

text \<open>
  The items of \<open>xs\<close> whose title is not in \<open>seen\<close> and that no earlier item of \<open>xs\<close>
  shares its title with, in the order of \<open>xs\<close>: the first occurrence of every new title.
\<close>

definition first_occurrences :: "pystr set \<Rightarrow> news_item list \<Rightarrow> news_item list" where
  "first_occurrences seen xs =
     nths xs {k. k < length xs \<and> title (xs ! k) \<notin> seen \<and> (\<forall>j<k. title (xs ! j) \<noteq> title (xs ! k))}"

text \<open>
  The row with id \<open>nid\<close> is stored and every row with that id is read.
\<close>

definition stays_read :: "pystr \<Rightarrow> news_item list \<Rightarrow> bool" where
  "stays_read nid rows \<longleftrightarrow>
     nid \<in> item_id ` set rows \<and> (\<forall>r\<in>set rows. item_id r = nid \<longrightarrow> is_read r)"


text \<open>
  An item the loop of \<open>save_news_items\<close> does not insert into the table \<open>rows\<close>.
\<close>

definition blocked :: "bind_pred \<Rightarrow> news_item list \<Rightarrow> news_item \<Rightarrow> bool" where
  "blocked bindable rows item \<longleftrightarrow>
     \<not> bindable (title item) \<or> title item \<in> title ` set rows \<or> insert_raises bindable rows item"

text \<open>
  Python values for the examples of the settings store: \<open>None\<close>, integers, strings,
  lists, tuples, and dictionaries with string keys (the list of their items).
\<close>

datatype pyval =
    PNone | PInt int | PStr pystr
  | PList "pyval list" | PTuple "pyval list" | PDict "(pystr \<times> pyval) list"

text \<open>
  What \<open>json.dumps\<close> and \<open>json.loads\<close> do on the values and texts of the examples
  (code point 34 is the double quote):
  \<^item> \<open>json.dumps\<close> writes the dictionary \<open>{"a": 1, "b": [1, 2, 3]}\<close> as the text
    \<open>{"a": 1, "b": [1, 2, 3]}\<close>, which \<open>json.loads\<close> reads as that dictionary;
  \<^item> \<open>json.dumps\<close> writes the tuple \<open>(1, 2)\<close> as the text \<open>[1, 2]\<close>, which
    \<open>json.loads\<close> reads as the list \<open>[1, 2]\<close>;
  \<^item> \<open>json.loads\<close> raises on the text \<open>oops\<close>.

  \<open>sample_dumps\<close> and \<open>sample_loads\<close> are \<open>json.dumps\<close> and \<open>json.loads\<close> on
  these two values and three texts, which are the only ones the examples use; on any
  other argument they are \<open>None\<close>, with no counterpart in the library.
\<close>

definition sample_dict :: pyval where
  "sample_dict = PDict [(cp ''a'', PInt 1), (cp ''b'', PList [PInt 1, PInt 2, PInt 3])]"

definition sample_dict_text :: pystr where
  "sample_dict_text =
     cp ''{'' @ [34] @ cp ''a'' @ [34] @ cp '': 1, '' @ [34] @ cp ''b'' @ [34] @ cp '': [1, 2, 3]}''"

definition sample_dumps :: "pyval \<Rightarrow> pystr option" where
  "sample_dumps v =
     (if v = sample_dict then Some sample_dict_text
      else if v = PTuple [PInt 1, PInt 2] then Some (cp ''[1, 2]'')
      else None)"

definition sample_loads :: "pystr \<Rightarrow> pyval option" where
  "sample_loads t =
     (if t = sample_dict_text then Some sample_dict
      else if t = cp ''[1, 2]'' then Some (PList [PInt 1, PInt 2])
      else None)"

text \<open>
  Descending order of \<open>published_time\<close>: every item is at least as recent as the
  items after it.
\<close>

definition newest_first :: "news_item list \<Rightarrow> bool" where
  "newest_first xs = sorted_wrt (\<lambda>a b. published_time b \<le> published_time a) xs"

text \<open>
  \<open>str.lower\<close> on strings whose cased characters are the ASCII letters, as the
  keywords and the titles of the examples are: \<open>A\<close> to \<open>Z\<close> move to \<open>a\<close> to \<open>z\<close>.
\<close>

definition lower_ascii :: "pystr \<Rightarrow> pystr" where
  "lower_ascii s = map (\<lambda>c. if 65 \<le> c \<and> c \<le> 90 then c + 32 else c) s"






text \<open>
  The toast raised for an item, the events that are toasts, and the items of a batch
  whose dispatch succeeds (\<open>k\<close> is the position of the first item).
\<close>

definition toast_of :: "news_item \<Rightarrow> event" where
  "toast_of n = Toast (source n @ cp '' - '' @ category n) (title n) (link n, item_id n)"

fun is_toast :: "event \<Rightarrow> bool" where
  "is_toast (Toast t msg cb) = True"
| "is_toast (Sleep d) = False"

fun dispatched :: "toast_env \<Rightarrow> nat \<Rightarrow> news_item list \<Rightarrow> news_item list" where
  "dispatched env k [] = []"
| "dispatched env k (x # xs) =
     (if notification_available env \<and> thread_starts env k then x # dispatched env (k + 1) xs
      else dispatched env (k + 1) xs)"

section \<open>Properties of the persistence layer\<close>

subsection \<open>Evaluation of literals\<close>

lemma cp_simps: "cp [] = []" "cp (c # cs) = of_char c # cp cs"
  by (simp_all add: cp_def)

subsection \<open>The insert loop\<close>

lemma save_loop_step:
  "blocked bindable rows item \<Longrightarrow>
     save_loop bindable rows (item # items) n = save_loop bindable rows items n"
  "\<not> blocked bindable rows item \<Longrightarrow>
     save_loop bindable rows (item # items) n = save_loop bindable (rows @ [item]) items (n + 1)"
  by (auto simp: blocked_def)

lemma blocked_mono: "blocked bindable rows item \<Longrightarrow> blocked bindable (rows @ new) item"
  by (auto simp: blocked_def insert_raises_def)

lemma blocked_self: "blocked bindable (rows @ [item]) item"
  by (simp add: blocked_def)

lemma not_blocked_fresh:
  "\<not> blocked bindable rows item \<Longrightarrow>
     title item \<notin> title ` set rows \<and> item_id item \<notin> item_id ` set rows \<and> bindable (item_id item)"
  by (auto simp: blocked_def insert_raises_def)

lemma save_loop_new:
  "\<exists>new. save_loop bindable rows items n = (n + length new, rows @ new) \<and> set new \<subseteq> set items \<and>
     distinct (map title new) \<and> (\<forall>r\<in>set new. title r \<notin> title ` set rows) \<and>
     (\<forall>r\<in>set new. item_id r \<notin> item_id ` set rows \<and> bindable (item_id r))"
proof (induction items arbitrary: rows n)
  case Nil
  show ?case by simp
next
  case (Cons i items)
  show ?case
  proof (cases "blocked bindable rows i")
    case True
    obtain new where "save_loop bindable rows items n = (n + length new, rows @ new)"
      "set new \<subseteq> set items" "distinct (map title new)"
      "\<forall>r\<in>set new. title r \<notin> title ` set rows"
      "\<forall>r\<in>set new. item_id r \<notin> item_id ` set rows \<and> bindable (item_id r)"
      using Cons.IH [of rows n] by blast
    then show ?thesis
      using save_loop_step(1) [OF True, of items n] by (intro exI [of _ new]) auto
  next
    case False
    obtain new where new: "save_loop bindable (rows @ [i]) items (n + 1)
        = (n + 1 + length new, (rows @ [i]) @ new)"
      "set new \<subseteq> set items" "distinct (map title new)"
      "\<forall>r\<in>set new. title r \<notin> title ` set (rows @ [i])"
      "\<forall>r\<in>set new. item_id r \<notin> item_id ` set (rows @ [i]) \<and> bindable (item_id r)"
      using Cons.IH [of "rows @ [i]" "n + 1"] by blast
    show ?thesis
      using not_blocked_fresh [OF False] new save_loop_step(2) [OF False, of items n]
      by (intro exI [of _ "i # new"]) auto
  qed
qed

text \<open>
  After the loop every item of the batch is blocked.
\<close>

lemma save_loop_covers:
  "i \<in> set items \<Longrightarrow> blocked bindable (snd (save_loop bindable rows items n)) i"
proof (induction items arbitrary: rows n)
  case Nil
  then show ?case by simp
next
  case (Cons x items)
  obtain new1 where new1: "save_loop bindable rows items n = (n + length new1, rows @ new1)"
    using save_loop_new [of bindable rows items n] by blast
  obtain new2 where new2: "save_loop bindable (rows @ [x]) items (n + 1)
      = (n + 1 + length new2, (rows @ [x]) @ new2)"
    using save_loop_new [of bindable "rows @ [x]" items "n + 1"] by blast
  show ?case
  proof (cases "i = x")
    case True
    show ?thesis
    proof (cases "blocked bindable rows x")
      case b: True
      then show ?thesis
        using True new1 blocked_mono [OF b, of new1] save_loop_step(1) [OF b, of items n] by simp
    next
      case b: False
      then show ?thesis
        using True new2 blocked_mono [OF blocked_self, of bindable rows x new2]
          save_loop_step(2) [OF b, of items n] by simp
    qed
  next
    case False
    then have mem: "i \<in> set items" using Cons.prems by simp
    show ?thesis
    proof (cases "blocked bindable rows x")
      case b: True
      then show ?thesis
        using Cons.IH [OF mem, of rows n] save_loop_step(1) [OF b, of items n] by simp
    next
      case b: False
      then show ?thesis
        using Cons.IH [OF mem, of "rows @ [x]" "n + 1"] save_loop_step(2) [OF b, of items n] by simp
    qed
  qed
qed

lemma save_loop_all_skipped:
  "\<forall>i \<in> set items. blocked bindable rows i \<Longrightarrow> save_loop bindable rows items n = (n, rows)"
  by (induction items arbitrary: n) (simp_all add: save_loop_step(1) del: save_loop.simps(2))

lemma save_loop_twice:
  "save_loop bindable (snd (save_loop bindable rows items n)) items m
     = (m, snd (save_loop bindable rows items n))"
  by (rule save_loop_all_skipped) (use save_loop_covers in blast)

subsection \<open>Idempotence of the upsert\<close>

text \<open>
  C2. \<open>save_news_items\<close> is idempotent: for every table and every batch, a second call
  with the same batch (both calls on a healthy connection) returns the inserted-count 0
  and leaves the table exactly as the first call left it.
\<close>

theorem save_news_items_idempotent:
  "save_news_items bindable Healthy (snd (save_news_items bindable Healthy rows items)) items
     = (Inr 0, snd (save_news_items bindable Healthy rows items))"
proof (cases "items = []")
  case True
  then show ?thesis by (simp add: save_news_items_def)
next
  case False
  then have "snd (save_news_items bindable Healthy rows items) = snd (save_loop bindable rows items 0)"
    by (simp add: save_news_items_def split: prod.splits)
  then show ?thesis
    using False save_loop_twice [of bindable rows items 0 0]
    by (simp add: save_news_items_def)
qed

subsection \<open>What one call inserts\<close>

lemma save_news_items_Healthy:
  "\<exists>new. save_news_items bindable Healthy rows items = (Inr (length new), rows @ new) \<and>
     set new \<subseteq> set items \<and> distinct (map title new) \<and>
     (\<forall>r\<in>set new. title r \<notin> title ` set rows) \<and>
     (\<forall>r\<in>set new. item_id r \<notin> item_id ` set rows \<and> bindable (item_id r))"
proof (cases "items = []")
  case True
  then show ?thesis by (simp add: save_news_items_def)
next
  case False
  obtain new where "save_loop bindable rows items 0 = (0 + length new, rows @ new)"
     "set new \<subseteq> set items" "distinct (map title new)"
     "\<forall>r\<in>set new. title r \<notin> title ` set rows"
     "\<forall>r\<in>set new. item_id r \<notin> item_id ` set rows \<and> bindable (item_id r)"
    using save_loop_new [of bindable rows items 0] by blast
  then show ?thesis using False
    by (intro exI [of _ new]) (simp add: save_news_items_def)
qed

lemma save_news_items_any:
  "\<exists>new. snd (save_news_items bindable st rows items) = rows @ new \<and> set new \<subseteq> set items \<and>
     distinct (map title new) \<and> (\<forall>r\<in>set new. title r \<notin> title ` set rows) \<and>
     (\<forall>r\<in>set new. item_id r \<notin> item_id ` set rows \<and> bindable (item_id r))"
proof (cases st)
  case Healthy
  then show ?thesis using save_news_items_Healthy [of bindable rows items] by auto
next
  case CannotConnect
  then show ?thesis by (intro exI [of _ "[]"]) (simp add: save_news_items_def)
next
  case StatementFails
  then show ?thesis by (intro exI [of _ "[]"]) (simp add: save_news_items_def)
qed

lemma distinct_titles_append:
  assumes "distinct (map title new)" "\<forall>r\<in>set new. title r \<notin> title ` set rows"
  shows "distinct (map title rows) \<longrightarrow> distinct (map title (rows @ new))"
proof -
  have "title x \<noteq> title r" if "x \<in> set rows" "r \<in> set new" for x r
    using assms(2) that by (metis imageI)
  then have "set (map title rows) \<inter> set (map title new) = {}"
    by (auto simp: disjoint_iff)
  then show ?thesis
    using assms(1) by simp
qed

subsection \<open>Stored rows are never modified by the upsert\<close>

text \<open>
  C6. For every table, every batch and every behaviour of the database,
  \<open>save_news_items\<close> leaves every stored row as it was (same position, same id, link,
  source, published time, category and read state): the table afterwards is the old
  table followed by new rows. Every new row is an item of the batch whose title was
  not stored, so an item whose title equals a stored title is skipped; and a table
  with pairwise different titles stays so.
\<close>

theorem save_news_items_keeps_rows:
  "length rows \<le> length (snd (save_news_items bindable st rows items)) \<and>
   (\<forall>k<length rows. snd (save_news_items bindable st rows items) ! k = rows ! k) \<and>
   (\<forall>r\<in>set (drop (length rows) (snd (save_news_items bindable st rows items))).
       r \<in> set items \<and> title r \<notin> title ` set rows) \<and>
   (distinct (map title rows) \<longrightarrow>
      distinct (map title (snd (save_news_items bindable st rows items))))"
proof -
  obtain new where new: "snd (save_news_items bindable st rows items) = rows @ new"
     "set new \<subseteq> set items"
     "distinct (map title new)" "\<forall>r\<in>set new. title r \<notin> title ` set rows"
    using save_news_items_any [of bindable st rows items] by blast
  have "\<forall>k<length rows. (rows @ new) ! k = rows ! k"
    by (simp add: nth_append)
  moreover have "distinct (map title rows) \<longrightarrow> distinct (map title (rows @ new))"
    by (rule distinct_titles_append [OF new(3,4)])
  moreover have "\<forall>r\<in>set (drop (length rows) (rows @ new)). r \<in> set items \<and> title r \<notin> title ` set rows"
    using new(2,4) by auto
  ultimately show ?thesis
    unfolding new(1) by simp
qed

theorem save_news_items_keeps_rows_witness:
  "distinct (map title
      [\<lparr>item_id = cp ''a1'', title = cp ''T1'', link = cp ''l1'', source = cp ''s1'',
        published_time = 1, category = cp ''AI'', is_read = True\<rparr>]) \<and>
   snd (save_news_items utf8_encodable Healthy
      [\<lparr>item_id = cp ''a1'', title = cp ''T1'', link = cp ''l1'', source = cp ''s1'',
        published_time = 1, category = cp ''AI'', is_read = True\<rparr>]
      [\<lparr>item_id = cp ''b7'', title = cp ''T1'', link = cp ''l2'', source = cp ''s2'',
        published_time = 5, category = cp ''Tech'', is_read = False\<rparr>,
       \<lparr>item_id = cp ''b8'', title = cp ''T2'', link = cp ''l3'', source = cp ''s2'',
        published_time = 4, category = cp ''Tech'', is_read = False\<rparr>])
   = [\<lparr>item_id = cp ''a1'', title = cp ''T1'', link = cp ''l1'', source = cp ''s1'',
        published_time = 1, category = cp ''AI'', is_read = True\<rparr>,
      \<lparr>item_id = cp ''b8'', title = cp ''T2'', link = cp ''l3'', source = cp ''s2'',
        published_time = 4, category = cp ''Tech'', is_read = False\<rparr>]"
  using save_news_items_keeps_rows [where st = Healthy and bindable = utf8_encodable
      and rows = "[\<lparr>item_id = cp ''a1'', title = cp ''T1'', link = cp ''l1'', source = cp ''s1'',
        published_time = 1, category = cp ''AI'', is_read = True\<rparr>]"
      and items = "[\<lparr>item_id = cp ''b7'', title = cp ''T1'', link = cp ''l2'', source = cp ''s2'',
        published_time = 5, category = cp ''Tech'', is_read = False\<rparr>,
       \<lparr>item_id = cp ''b8'', title = cp ''T2'', link = cp ''l3'', source = cp ''s2'',
        published_time = 4, category = cp ''Tech'', is_read = False\<rparr>]"]
  by (simp add: save_news_items_def insert_raises_def utf8_encodable_def cp_simps)

subsection \<open>First occurrences\<close>

lemma first_occurrences_Nil: "first_occurrences seen [] = []"
  by (simp add: first_occurrences_def)

lemma first_occurrences_Cons:
  "first_occurrences seen (x # xs) =
     (if title x \<in> seen then first_occurrences seen xs
      else x # first_occurrences (insert (title x) seen) xs)"
proof -
  let ?A = "{k. k < length (x # xs) \<and> title ((x # xs) ! k) \<notin> seen \<and>
               (\<forall>j<k. title ((x # xs) ! j) \<noteq> title ((x # xs) ! k))}"
  have shift: "{j. Suc j \<in> ?A} =
      {j. j < length xs \<and> title (xs ! j) \<notin> seen \<and> title x \<noteq> title (xs ! j) \<and>
          (\<forall>i<j. title (xs ! i) \<noteq> title (xs ! j))}"
    by (auto simp: less_Suc_eq_0_disj)
  show ?thesis
  proof (cases "title x \<in> seen")
    case True
    then have "{j. Suc j \<in> ?A} =
      {j. j < length xs \<and> title (xs ! j) \<notin> seen \<and> (\<forall>i<j. title (xs ! i) \<noteq> title (xs ! j))}"
      unfolding shift by auto
    moreover have "0 \<notin> ?A" using True by simp
    ultimately show ?thesis
      using True by (simp add: first_occurrences_def nths_Cons)
  next
    case False
    then have "{j. Suc j \<in> ?A} =
      {j. j < length xs \<and> title (xs ! j) \<notin> insert (title x) seen \<and>
          (\<forall>i<j. title (xs ! i) \<noteq> title (xs ! j))}"
      unfolding shift by auto
    moreover have "0 \<in> ?A" using False by simp
    ultimately show ?thesis
      using False by (simp add: first_occurrences_def nths_Cons)
  qed
qed



subsection \<open>A batch with repeated titles\<close>


text \<open>
  The same happens without any primary-key clash when a field of the first occurrence
  cannot be bound: its \<open>INSERT\<close> raises, the inner \<open>except\<close> swallows it, and the
  second occurrence is stored.
\<close>

lemma save_news_items_unbindable_link:
  "save_news_items utf8_encodable Healthy []
     [\<lparr>item_id = cp ''X'', title = cp ''T'', link = [55296], source = cp ''s'',
       published_time = 2, category = cp ''AI'', is_read = False\<rparr>,
      \<lparr>item_id = cp ''Y'', title = cp ''T'', link = cp ''lb'', source = cp ''s2'',
       published_time = 3, category = cp ''AI'', is_read = False\<rparr>]
   = (Inr 1,
     [\<lparr>item_id = cp ''Y'', title = cp ''T'', link = cp ''lb'', source = cp ''s2'',
       published_time = 3, category = cp ''AI'', is_read = False\<rparr>])"
  by (simp add: save_news_items_def insert_raises_def utf8_encodable_def cp_simps)



subsection \<open>Marking as read\<close>

lemma update_is_read_simps:
  "item_id (update_is_read k r) = item_id r"
  "title (update_is_read k r) = title r"
  "link (update_is_read k r) = link r"
  "source (update_is_read k r) = source r"
  "published_time (update_is_read k r) = published_time r"
  "category (update_is_read k r) = category r"
  "item_id r \<noteq> k \<Longrightarrow> update_is_read k r = r"
  "item_id r = k \<Longrightarrow> is_read (update_is_read k r)"
  "is_read r \<Longrightarrow> is_read (update_is_read k r)"
  by (simp_all add: update_is_read_def)

text \<open>
  C10. Under every behaviour of the database, \<open>mark_as_read\<close> keeps the number and
  order of the rows, keeps the id, title, link, source, published time and category
  of every row, and leaves every row whose id differs from \<open>news_id\<close> exactly as it was.
\<close>

theorem mark_as_read_frame:
  "length (snd (mark_as_read bindable st rows news_id)) = length rows \<and>
   (\<forall>k<length rows.
      item_id (snd (mark_as_read bindable st rows news_id) ! k) = item_id (rows ! k) \<and>
      title (snd (mark_as_read bindable st rows news_id) ! k) = title (rows ! k) \<and>
      link (snd (mark_as_read bindable st rows news_id) ! k) = link (rows ! k) \<and>
      source (snd (mark_as_read bindable st rows news_id) ! k) = source (rows ! k) \<and>
      published_time (snd (mark_as_read bindable st rows news_id) ! k) = published_time (rows ! k) \<and>
      category (snd (mark_as_read bindable st rows news_id) ! k) = category (rows ! k) \<and>
      (item_id (rows ! k) \<noteq> news_id \<longrightarrow>
         snd (mark_as_read bindable st rows news_id) ! k = rows ! k))"
  by (cases st) (simp_all add: mark_as_read_def update_is_read_simps)

theorem mark_as_read_frame_witness:
  "(1::nat) < length
      [\<lparr>item_id = cp ''a1'', title = cp ''T1'', link = cp ''l1'', source = cp ''s1'',
        published_time = 1, category = cp ''AI'', is_read = False\<rparr>,
       \<lparr>item_id = cp ''a2'', title = cp ''T2'', link = cp ''l2'', source = cp ''s2'',
        published_time = 2, category = cp ''AI'', is_read = False\<rparr>] \<and>
   snd (mark_as_read utf8_encodable Healthy
      [\<lparr>item_id = cp ''a1'', title = cp ''T1'', link = cp ''l1'', source = cp ''s1'',
        published_time = 1, category = cp ''AI'', is_read = False\<rparr>,
       \<lparr>item_id = cp ''a2'', title = cp ''T2'', link = cp ''l2'', source = cp ''s2'',
        published_time = 2, category = cp ''AI'', is_read = False\<rparr>] (cp ''a1''))
   = [\<lparr>item_id = cp ''a1'', title = cp ''T1'', link = cp ''l1'', source = cp ''s1'',
        published_time = 1, category = cp ''AI'', is_read = True\<rparr>,
      \<lparr>item_id = cp ''a2'', title = cp ''T2'', link = cp ''l2'', source = cp ''s2'',
        published_time = 2, category = cp ''AI'', is_read = False\<rparr>]"
  using mark_as_read_frame [where st = Healthy and news_id = "cp ''a1''"
      and bindable = utf8_encodable
      and rows = "[\<lparr>item_id = cp ''a1'', title = cp ''T1'', link = cp ''l1'', source = cp ''s1'',
        published_time = 1, category = cp ''AI'', is_read = False\<rparr>,
       \<lparr>item_id = cp ''a2'', title = cp ''T2'', link = cp ''l2'', source = cp ''s2'',
        published_time = 2, category = cp ''AI'', is_read = False\<rparr>]"]
  by (simp add: mark_as_read_def update_is_read_def utf8_encodable_def cp_simps)

lemma stays_read_save:
  assumes "stays_read nid rows"
  shows "stays_read nid (snd (save_news_items bindable st rows items))"
proof -
  obtain new where new: "snd (save_news_items bindable st rows items) = rows @ new"
     "\<forall>r\<in>set new. item_id r \<notin> item_id ` set rows \<and> bindable (item_id r)"
    using save_news_items_any [of bindable st rows items] by blast
  show ?thesis using assms new unfolding stays_read_def by auto
qed

lemma stays_read_update:
  assumes "stays_read nid rows"
  shows "stays_read nid (map (update_is_read k) rows)"
proof -
  have "item_id ` set (map (update_is_read k) rows) = item_id ` set rows"
    by (simp add: image_image update_is_read_simps)
  moreover have "is_read r'"
    if mem: "r' \<in> set (map (update_is_read k) rows)" and eq: "item_id r' = nid" for r'
  proof -
    obtain r where r: "r \<in> set rows" "r' = update_is_read k r"
      using mem by auto
    then have "is_read r"
      using assms eq unfolding stays_read_def by (simp add: update_is_read_simps)
    then show ?thesis using r by (simp add: update_is_read_simps)
  qed
  ultimately show ?thesis
    using assms unfolding stays_read_def by blast
qed

lemma stays_read_mark:
  "stays_read nid rows \<Longrightarrow> stays_read nid (snd (mark_as_read bindable st rows k))"
  by (cases st) (simp_all add: mark_as_read_def stays_read_update)

lemma stays_read_run:
  "stays_read nid rows \<Longrightarrow> stays_read nid (run_ops bindable rows ops)"
  unfolding run_ops_def
proof (induction ops arbitrary: rows)
  case Nil
  then show ?case by simp
next
  case (Cons op ops)
  have "stays_read nid (apply_op bindable rows op)"
    using Cons.prems by (cases op) (simp_all add: stays_read_save stays_read_mark)
  then show ?case using Cons.IH by simp
qed

lemma get_unread_news_subset:
  "get_unread_news st rows limit = Inr xs \<Longrightarrow> set xs \<subseteq> {r \<in> set rows. \<not> is_read r}"
proof (cases st)
  case Healthy
  assume g: "get_unread_news st rows limit = Inr xs"
  have "set (sql_limit limit ys) \<subseteq> set ys" for ys :: "news_item list"
    by (auto simp: sql_limit_def dest: in_set_takeD)
  then have "set (sql_limit limit (order_by_published_desc (filter (\<lambda>r. \<not> is_read r) rows)))
      \<subseteq> {r \<in> set rows. \<not> is_read r}"
    by (fastforce simp: order_by_published_desc_def)
  then show ?thesis using g Healthy
    by (auto simp: get_unread_news_def split: if_splits)
next
  case CannotConnect
  assume "get_unread_news st rows limit = Inr xs"
  then show ?thesis using CannotConnect by (simp add: get_unread_news_def)
next
  case StatementFails
  assume "get_unread_news st rows limit = Inr xs"
  then show ?thesis using StatementFails by (auto simp: get_unread_news_def)
qed

lemma mark_as_read_stays:
  assumes "r \<in> set rows" "bindable (item_id r)"
  shows "stays_read (item_id r) (snd (mark_as_read bindable Healthy rows (item_id r)))"
proof -
  have "item_id ` set (map (update_is_read (item_id r)) rows) = item_id ` set rows"
    by (simp add: image_image update_is_read_simps)
  moreover have "is_read r'"
    if mem: "r' \<in> set (map (update_is_read (item_id r)) rows)"
      and eq: "item_id r' = item_id r" for r'
  proof -
    obtain x where x: "x \<in> set rows" "r' = update_is_read (item_id r) x"
      using mem by auto
    then show ?thesis using eq by (simp add: update_is_read_simps)
  qed
  ultimately have "stays_read (item_id r) (map (update_is_read (item_id r)) rows)"
    using assms(1) unfolding stays_read_def by blast
  then show ?thesis
    using assms(2) by (simp add: mark_as_read_def)
qed

text \<open>
  Every id of a table that the storage operations built from the empty table can be
  bound: a row is stored only by an \<open>INSERT\<close> that bound its id.
\<close>

lemma stored_ids_bindable:
  "\<forall>r\<in>set (run_ops bindable [] ops). bindable (item_id r)"
proof -
  have step: "\<forall>r\<in>set (apply_op bindable rows op). bindable (item_id r)"
    if inv: "\<forall>r\<in>set rows. bindable (item_id r)" for rows op
  proof (cases op)
    case (SaveNewsItems st items)
    obtain new where "snd (save_news_items bindable st rows items) = rows @ new"
       "\<forall>r\<in>set new. item_id r \<notin> item_id ` set rows \<and> bindable (item_id r)"
      using save_news_items_any [of bindable st rows items] by blast
    then show ?thesis using inv SaveNewsItems by auto
  next
    case (MarkAsRead st k)
    have "\<forall>r\<in>set (map (update_is_read k) rows). bindable (item_id r)"
      using inv by (simp add: update_is_read_simps)
    then show ?thesis
      using inv MarkAsRead by (cases st) (simp_all add: mark_as_read_def)
  qed
  have "\<forall>r\<in>set rows. bindable (item_id r) \<Longrightarrow>
      \<forall>r\<in>set (foldl (apply_op bindable) rows ops). bindable (item_id r)" for rows
  proof (induction ops arbitrary: rows)
    case Nil
    then show ?case by simp
  next
    case (Cons op ops)
    show ?case using Cons.IH [OF step [OF Cons.prems, of op]] by simp
  qed
  from this [of "[]"] show ?thesis by (simp add: run_ops_def)
qed

text \<open>
  The claim that \<open>mark_as_read\<close> returns false for an id that is not stored fails: the
  \<open>UPDATE\<close> touches no row, nothing is raised, and the method returns \<open>True\<close>.
\<close>

theorem mark_as_read_unknown_id_counterexample:
  "cp ''zz'' \<notin> item_id ` set
      [\<lparr>item_id = cp ''a1'', title = cp ''T1'', link = cp ''l1'', source = cp ''s1'',
        published_time = 1, category = cp ''AI'', is_read = False\<rparr>] \<and>
   fst (mark_as_read utf8_encodable Healthy
      [\<lparr>item_id = cp ''a1'', title = cp ''T1'', link = cp ''l1'', source = cp ''s1'',
        published_time = 1, category = cp ''AI'', is_read = False\<rparr>] (cp ''zz'')) = Inr True \<and>
   fst (mark_as_read utf8_encodable Healthy
      [\<lparr>item_id = cp ''a1'', title = cp ''T1'', link = cp ''l1'', source = cp ''s1'',
        published_time = 1, category = cp ''AI'', is_read = False\<rparr>] (cp ''zz'')) \<noteq> Inr False"
  by (simp add: mark_as_read_def update_is_read_def utf8_encodable_def cp_simps)

text \<open>
  C1 (amended). On a healthy connection, \<open>mark_as_read\<close> on an id that is not stored
  leaves the table unchanged and returns \<open>True\<close> when sqlite3 can bind the id, \<open>False\<close>
  when it cannot. On the id of a stored unread item, an id sqlite3 can bind, it returns
  \<open>True\<close>, and from then on, after any further calls of \<open>save_news_items\<close> and
  \<open>mark_as_read\<close>, no result of \<open>get_unread_news\<close> (any limit) holds an item with
  that id. When every statement fails, \<open>mark_as_read\<close> returns \<open>False\<close> and leaves the
  table unchanged. Every id in a table that calls of \<open>save_news_items\<close> and
  \<open>mark_as_read\<close> built from the empty table is one that sqlite3 can bind.
\<close>

theorem mark_as_read_result:
  "(news_id \<notin> item_id ` set rows \<longrightarrow>
      mark_as_read bindable Healthy rows news_id = (Inr (bindable news_id), rows)) \<and>
   (r \<in> set rows \<and> \<not> is_read r \<and> bindable (item_id r) \<longrightarrow>
      fst (mark_as_read bindable Healthy rows (item_id r)) = Inr True \<and>
      (\<forall>ops st limit xs.
         get_unread_news st
           (run_ops bindable (snd (mark_as_read bindable Healthy rows (item_id r))) ops) limit = Inr xs
           \<longrightarrow> item_id r \<notin> item_id ` set xs)) \<and>
   mark_as_read bindable StatementFails rows news_id = (Inr False, rows) \<and>
   (\<forall>x\<in>set (run_ops bindable [] history). bindable (item_id x))"
proof (intro conjI impI allI)
  assume "news_id \<notin> item_id ` set rows"
  then have "map (update_is_read news_id) rows = rows"
    by (induction rows) (auto simp: update_is_read_def)
  then show "mark_as_read bindable Healthy rows news_id = (Inr (bindable news_id), rows)"
    by (simp add: mark_as_read_def)
next
  assume "r \<in> set rows \<and> \<not> is_read r \<and> bindable (item_id r)"
  then show "fst (mark_as_read bindable Healthy rows (item_id r)) = Inr True"
    by (simp add: mark_as_read_def)
next
  fix ops st limit xs
  assume r: "r \<in> set rows \<and> \<not> is_read r \<and> bindable (item_id r)"
    and g: "get_unread_news st
       (run_ops bindable (snd (mark_as_read bindable Healthy rows (item_id r))) ops) limit = Inr xs"
  have "stays_read (item_id r)
      (run_ops bindable (snd (mark_as_read bindable Healthy rows (item_id r))) ops)"
    using r by (simp add: mark_as_read_stays stays_read_run)
  then show "item_id r \<notin> item_id ` set xs"
    using get_unread_news_subset [OF g] unfolding stays_read_def by auto
next
  show "mark_as_read bindable StatementFails rows news_id = (Inr False, rows)"
    by (simp add: mark_as_read_def)
next
  show "\<forall>x\<in>set (run_ops bindable [] history). bindable (item_id x)"
    by (rule stored_ids_bindable)
qed

theorem mark_as_read_result_witness:
  "cp ''zz'' \<notin> item_id ` set
      [\<lparr>item_id = cp ''a1'', title = cp ''T1'', link = cp ''l1'', source = cp ''s1'',
        published_time = 1, category = cp ''AI'', is_read = False\<rparr>,
       \<lparr>item_id = cp ''a2'', title = cp ''T2'', link = cp ''l2'', source = cp ''s2'',
        published_time = 2, category = cp ''AI'', is_read = False\<rparr>] \<and>
   \<not> is_read \<lparr>item_id = cp ''a1'', title = cp ''T1'', link = cp ''l1'', source = cp ''s1'',
        published_time = 1, category = cp ''AI'', is_read = False\<rparr> \<and>
   utf8_encodable (cp ''a1'') \<and>
   \<not> utf8_encodable [55296] \<and>
   mark_as_read utf8_encodable Healthy
      [\<lparr>item_id = cp ''a1'', title = cp ''T1'', link = cp ''l1'', source = cp ''s1'',
        published_time = 1, category = cp ''AI'', is_read = False\<rparr>] [55296]
     = (Inr False,
      [\<lparr>item_id = cp ''a1'', title = cp ''T1'', link = cp ''l1'', source = cp ''s1'',
        published_time = 1, category = cp ''AI'', is_read = False\<rparr>]) \<and>
   get_unread_news Healthy
     (run_ops utf8_encodable
       (snd (mark_as_read utf8_encodable Healthy
         [\<lparr>item_id = cp ''a1'', title = cp ''T1'', link = cp ''l1'', source = cp ''s1'',
           published_time = 1, category = cp ''AI'', is_read = False\<rparr>,
          \<lparr>item_id = cp ''a2'', title = cp ''T2'', link = cp ''l2'', source = cp ''s2'',
           published_time = 2, category = cp ''AI'', is_read = False\<rparr>] (cp ''a1'')))
       [SaveNewsItems Healthy
         [\<lparr>item_id = cp ''a1'', title = cp ''T9'', link = cp ''l1'', source = cp ''s1'',
           published_time = 1, category = cp ''AI'', is_read = False\<rparr>]]) 10
   = Inr [\<lparr>item_id = cp ''a2'', title = cp ''T2'', link = cp ''l2'', source = cp ''s2'',
           published_time = 2, category = cp ''AI'', is_read = False\<rparr>]"
proof -
  have u: "mark_as_read utf8_encodable Healthy
      [\<lparr>item_id = cp ''a1'', title = cp ''T1'', link = cp ''l1'', source = cp ''s1'',
        published_time = 1, category = cp ''AI'', is_read = False\<rparr>] [55296]
     = (Inr (utf8_encodable [55296]),
      [\<lparr>item_id = cp ''a1'', title = cp ''T1'', link = cp ''l1'', source = cp ''s1'',
        published_time = 1, category = cp ''AI'', is_read = False\<rparr>])"
    using mark_as_read_result [where news_id = "[55296]" and bindable = utf8_encodable
      and rows = "[\<lparr>item_id = cp ''a1'', title = cp ''T1'', link = cp ''l1'', source = cp ''s1'',
        published_time = 1, category = cp ''AI'', is_read = False\<rparr>]", THEN conjunct1]
    by (simp add: cp_simps)
  have n: "\<not> utf8_encodable [55296]"
    by (simp add: utf8_encodable_def)
  show ?thesis
    using u n
    by (simp add: mark_as_read_def update_is_read_def get_unread_news_def run_ops_def
      save_news_items_def insert_raises_def sql_limit_def order_by_published_desc_def
      utf8_encodable_def cp_simps)
qed
section \<open>Properties of merge and deduplication\<close>

lemma dedup_loop_first_occurrences:
  "dedup_loop xs seen acc = acc @ first_occurrences seen xs"
  by (induction xs arbitrary: seen acc) (simp_all add: first_occurrences_Nil first_occurrences_Cons)

lemma first_occurrences_subset: "set (first_occurrences seen xs) \<subseteq> set xs"
  by (simp add: first_occurrences_def set_nths_subset)

lemma first_occurrences_titles:
  "title ` set (first_occurrences seen xs) = title ` set xs - seen"
  by (induction xs arbitrary: seen) (auto simp: first_occurrences_Nil first_occurrences_Cons)

lemma first_occurrences_distinct: "distinct (map title (first_occurrences seen xs))"
proof (induction xs arbitrary: seen)
  case Nil
  show ?case by (simp add: first_occurrences_Nil)
next
  case (Cons x xs)
  have "title x \<notin> title ` set (first_occurrences (insert (title x) seen) xs)"
    unfolding first_occurrences_titles by simp
  then show ?case
    using Cons.IH by (simp add: first_occurrences_Cons)
qed

lemma first_occurrences_newest_first:
  "newest_first xs \<Longrightarrow> newest_first (first_occurrences seen xs)"
proof (induction xs arbitrary: seen)
  case Nil
  show ?case by (simp add: first_occurrences_Nil newest_first_def)
next
  case (Cons z zs)
  have sorted_tail: "newest_first zs" and head: "\<forall>w\<in>set zs. published_time w \<le> published_time z"
    using Cons.prems by (simp_all add: newest_first_def)
  have "\<forall>w\<in>set (first_occurrences (insert (title z) seen) zs). published_time w \<le> published_time z"
    using head first_occurrences_subset [of "insert (title z) seen" zs] by blast
  then have "newest_first (z # first_occurrences (insert (title z) seen) zs)"
    using Cons.IH [OF sorted_tail, of "insert (title z) seen"] by (simp add: newest_first_def)
  then show ?case
    using Cons.IH [OF sorted_tail, of seen] by (simp add: first_occurrences_Cons)
qed

lemma first_occurrences_wins:
  assumes "newest_first xs" "x \<in> set (first_occurrences seen xs)" "y \<in> set xs" "title y = title x"
  shows "published_time y \<le> published_time x"
  using assms
proof (induction xs arbitrary: seen)
  case Nil
  then show ?case by simp
next
  case (Cons z zs)
  have sorted_tail: "newest_first zs" and head: "\<forall>w\<in>set zs. published_time w \<le> published_time z"
    using Cons.prems(1) by (simp_all add: newest_first_def)
  show ?case
  proof (cases "title z \<in> seen")
    case True
    then have mem: "x \<in> set (first_occurrences seen zs)"
      using Cons.prems(2) by (simp add: first_occurrences_Cons)
    then have "title x \<notin> seen"
      using first_occurrences_titles [of seen zs] by blast
    then have "y \<noteq> z" using True Cons.prems(4) by auto
    then have "y \<in> set zs" using Cons.prems(3) by simp
    then show ?thesis using Cons.IH [OF sorted_tail mem _ Cons.prems(4)] by simp
  next
    case False
    then consider "x = z" | "x \<in> set (first_occurrences (insert (title z) seen) zs)"
      using Cons.prems(2) by (auto simp: first_occurrences_Cons)
    then show ?thesis
    proof cases
      case 1
      then show ?thesis using head Cons.prems(3) by auto
    next
      case 2
      then have "title x \<notin> insert (title z) seen"
        using first_occurrences_titles [of "insert (title z) seen" zs] by blast
      then have "y \<noteq> z" using Cons.prems(4) by auto
      then have "y \<in> set zs" using Cons.prems(3) by simp
      then show ?thesis using Cons.IH [OF sorted_tail 2 _ Cons.prems(4)] by simp
    qed
  qed
qed

lemma sort_published_reverse_newest_first: "newest_first (sort_published_reverse xs)"
proof -
  have "sorted (map (\<lambda>x. - published_time x) (sort_key (\<lambda>x. - published_time x) xs))"
    by (rule sorted_sort_key)
  then show ?thesis
    by (simp add: newest_first_def sort_published_reverse_def sorted_map)
qed

lemma sort_published_reverse_stable:
  "filter (\<lambda>x. published_time x = t) (sort_published_reverse xs) = filter (\<lambda>x. published_time x = t) xs"
  using sort_key_stable [of "\<lambda>x. - published_time x" "- t" xs]
  by (simp add: sort_published_reverse_def)

lemma stable_descending_sort_unique:
  assumes "mset ys = mset xs" "newest_first ys"
    and "\<And>t. filter (\<lambda>x. published_time x = t) ys = filter (\<lambda>x. published_time x = t) xs"
  shows "sort_published_reverse xs = ys"
  unfolding sort_published_reverse_def
proof (rule properties_for_sort_key)
  show "mset ys = mset xs" by (rule assms(1))
  show "sorted (map (\<lambda>x. - published_time x) ys)"
    using assms(2) by (simp add: newest_first_def sorted_map)
  fix k assume "k \<in> set ys"
  have eq: "(\<lambda>x. - published_time k = - published_time x) = (\<lambda>x. published_time x = published_time k)"
    by auto
  show "filter (\<lambda>x. - published_time k = - published_time x) ys
      = filter (\<lambda>x. - published_time k = - published_time x) xs"
    unfolding eq by (rule assms(3))
qed

text \<open>
  C3. For every input sequence, the sort phase returns a permutation of the input in
  descending order of \<open>published_time\<close> in which items with equal times keep their
  input order (a stable sort), and \<open>merge_and_dedup\<close> returns exactly the first
  post-sort occurrence of every title, in post-sort order. Hence the output has
  pairwise different titles, holds every title of the input, is in descending order of
  \<open>published_time\<close>, and the kept instance of a title is a newest one: no input item
  with the same title has a later time.
\<close>

theorem merge_and_dedup_correct:
  "mset (sort_published_reverse items) = mset items \<and>
   newest_first (sort_published_reverse items) \<and>
   (\<forall>t. filter (\<lambda>x. published_time x = t) (sort_published_reverse items)
         = filter (\<lambda>x. published_time x = t) items) \<and>
   merge_and_dedup items = first_occurrences {} (sort_published_reverse items) \<and>
   distinct (map title (merge_and_dedup items)) \<and>
   title ` set (merge_and_dedup items) = title ` set items \<and>
   newest_first (merge_and_dedup items) \<and>
   (\<forall>x\<in>set (merge_and_dedup items). \<forall>y\<in>set items.
       title y = title x \<longrightarrow> published_time y \<le> published_time x)"
proof -
  let ?s = "sort_published_reverse items"
  have m: "mset ?s = mset items"
    by (simp add: sort_published_reverse_def)
  then have s: "set ?s = set items"
    by (metis set_mset_mset)
  have e: "merge_and_dedup items = first_occurrences {} ?s"
    by (simp add: merge_and_dedup_def dedup_loop_first_occurrences)
  have w: "\<forall>x\<in>set (first_occurrences {} ?s). \<forall>y\<in>set items.
       title y = title x \<longrightarrow> published_time y \<le> published_time x"
    using first_occurrences_wins [OF sort_published_reverse_newest_first] s by blast
  have t: "title ` set (first_occurrences {} ?s) = title ` set items"
    using first_occurrences_titles [of "{}" ?s] s by simp
  show ?thesis
    unfolding e
  proof (intro conjI)
    show "mset ?s = mset items" by (rule m)
    show "newest_first ?s" by (rule sort_published_reverse_newest_first)
    show "\<forall>t. filter (\<lambda>x. published_time x = t) ?s = filter (\<lambda>x. published_time x = t) items"
      by (simp add: sort_published_reverse_stable)
    show "first_occurrences {} ?s = first_occurrences {} ?s" by (rule refl)
    show "distinct (map title (first_occurrences {} ?s))" by (rule first_occurrences_distinct)
    show "title ` set (first_occurrences {} ?s) = title ` set items" by (rule t)
    show "newest_first (first_occurrences {} ?s)"
      by (rule first_occurrences_newest_first [OF sort_published_reverse_newest_first])
    show "\<forall>x\<in>set (first_occurrences {} ?s). \<forall>y\<in>set items.
       title y = title x \<longrightarrow> published_time y \<le> published_time x" by (rule w)
  qed
qed

theorem merge_and_dedup_correct_witness:
  "merge_and_dedup
      [\<lparr>item_id = cp ''n1'', title = cp ''A'', link = cp ''l1'', source = cp ''s1'',
        published_time = 1, category = cp ''AI'', is_read = False\<rparr>,
       \<lparr>item_id = cp ''n2'', title = cp ''B'', link = cp ''l2'', source = cp ''s1'',
        published_time = 2, category = cp ''AI'', is_read = False\<rparr>,
       \<lparr>item_id = cp ''n3'', title = cp ''A'', link = cp ''l3'', source = cp ''s2'',
        published_time = 3, category = cp ''AI'', is_read = False\<rparr>]
    = [\<lparr>item_id = cp ''n3'', title = cp ''A'', link = cp ''l3'', source = cp ''s2'',
        published_time = 3, category = cp ''AI'', is_read = False\<rparr>,
       \<lparr>item_id = cp ''n2'', title = cp ''B'', link = cp ''l2'', source = cp ''s1'',
        published_time = 2, category = cp ''AI'', is_read = False\<rparr>] \<and>
   \<lparr>item_id = cp ''n3'', title = cp ''A'', link = cp ''l3'', source = cp ''s2'',
        published_time = 3, category = cp ''AI'', is_read = False\<rparr> \<in> set (merge_and_dedup
      [\<lparr>item_id = cp ''n1'', title = cp ''A'', link = cp ''l1'', source = cp ''s1'',
        published_time = 1, category = cp ''AI'', is_read = False\<rparr>,
       \<lparr>item_id = cp ''n2'', title = cp ''B'', link = cp ''l2'', source = cp ''s1'',
        published_time = 2, category = cp ''AI'', is_read = False\<rparr>,
       \<lparr>item_id = cp ''n3'', title = cp ''A'', link = cp ''l3'', source = cp ''s2'',
        published_time = 3, category = cp ''AI'', is_read = False\<rparr>]) \<and>
   \<lparr>item_id = cp ''n1'', title = cp ''A'', link = cp ''l1'', source = cp ''s1'',
        published_time = 1, category = cp ''AI'', is_read = False\<rparr> \<in> set
      [\<lparr>item_id = cp ''n1'', title = cp ''A'', link = cp ''l1'', source = cp ''s1'',
        published_time = 1, category = cp ''AI'', is_read = False\<rparr>,
       \<lparr>item_id = cp ''n2'', title = cp ''B'', link = cp ''l2'', source = cp ''s1'',
        published_time = 2, category = cp ''AI'', is_read = False\<rparr>,
       \<lparr>item_id = cp ''n3'', title = cp ''A'', link = cp ''l3'', source = cp ''s2'',
        published_time = 3, category = cp ''AI'', is_read = False\<rparr>] \<and>
   title \<lparr>item_id = cp ''n1'', title = cp ''A'', link = cp ''l1'', source = cp ''s1'',
        published_time = 1, category = cp ''AI'', is_read = False\<rparr> = title \<lparr>item_id = cp ''n3'', title = cp ''A'', link = cp ''l3'', source = cp ''s2'',
        published_time = 3, category = cp ''AI'', is_read = False\<rparr> \<and>
   published_time \<lparr>item_id = cp ''n1'', title = cp ''A'', link = cp ''l1'', source = cp ''s1'',
        published_time = 1, category = cp ''AI'', is_read = False\<rparr> \<le> published_time \<lparr>item_id = cp ''n3'', title = cp ''A'', link = cp ''l3'', source = cp ''s2'',
        published_time = 3, category = cp ''AI'', is_read = False\<rparr>"
proof -
  let ?items = "[\<lparr>item_id = cp ''n1'', title = cp ''A'', link = cp ''l1'', source = cp ''s1'',
        published_time = 1, category = cp ''AI'', is_read = False\<rparr>,
       \<lparr>item_id = cp ''n2'', title = cp ''B'', link = cp ''l2'', source = cp ''s1'',
        published_time = 2, category = cp ''AI'', is_read = False\<rparr>,
       \<lparr>item_id = cp ''n3'', title = cp ''A'', link = cp ''l3'', source = cp ''s2'',
        published_time = 3, category = cp ''AI'', is_read = False\<rparr>]"
  let ?A = "\<lparr>item_id = cp ''n1'', title = cp ''A'', link = cp ''l1'', source = cp ''s1'',
        published_time = 1, category = cp ''AI'', is_read = False\<rparr>"
  let ?A' = "\<lparr>item_id = cp ''n3'', title = cp ''A'', link = cp ''l3'', source = cp ''s2'',
        published_time = 3, category = cp ''AI'', is_read = False\<rparr>"
  have ev: "merge_and_dedup ?items = [?A', \<lparr>item_id = cp ''n2'', title = cp ''B'', link = cp ''l2'', source = cp ''s1'',
        published_time = 2, category = cp ''AI'', is_read = False\<rparr>]"
    by (simp add: merge_and_dedup_def sort_published_reverse_def cp_simps)
  have h1: "?A' \<in> set (merge_and_dedup ?items)"
    unfolding ev by simp
  have h2: "?A \<in> set ?items" by simp
  have h3: "title ?A = title ?A'" by simp
  have "\<forall>x\<in>set (merge_and_dedup ?items). \<forall>y\<in>set ?items.
       title y = title x \<longrightarrow> published_time y \<le> published_time x"
    using merge_and_dedup_correct [of ?items] by (elim conjE)
  then have c: "published_time ?A \<le> published_time ?A'"
    using h1 h2 h3 by blast
  show ?thesis
    using ev h1 h2 h3 c by (intro conjI)
qed

section \<open>Properties of the categorisation\<close>

lemma py_in_sublist: "py_in needle hay \<longleftrightarrow> sublist needle hay"
proof (induction hay)
  case Nil
  show ?case by auto
next
  case (Cons c cs)
  show ?case
  proof (cases needle)
    case Nil
    then show ?thesis by simp
  next
    case (Cons a as)
    then show ?thesis
      using Cons.IH by (simp add: sublist_code(3))
  qed
qed

lemma scan_keywords_iff:
  "scan_keywords lower kws title_lower \<longleftrightarrow>
     (\<exists>keyword\<in>set kws. sublist (lower keyword) title_lower)"
  by (induction kws) (auto simp: py_in_sublist)

text \<open>
  C4. For every title and whatever \<open>str.lower\<close> computes, the category is \<open>AI\<close>
  when the lower-cased form of some keyword of the AI list occurs as a contiguous
  substring of the lower-cased title; otherwise it is U+79D1 U+6280 when that holds
  for some keyword of the tech list; otherwise it is the default \<open>AI/\<close> U+79D1
  U+6280. Matching is by substring (\<open>sublist\<close>: some prefix and suffix surround the
  keyword), not by token, and the AI list is tried first.
\<close>

theorem categorize_by_keywords_correct:
  "categorize_by_keywords lower title_text =
     (if \<exists>keyword\<in>set ai_keywords. sublist (lower keyword) (lower title_text) then cp ''AI''
      else if \<exists>keyword\<in>set tech_keywords. sublist (lower keyword) (lower title_text)
        then [31185, 25216]
      else cp ''AI/'' @ [31185, 25216])"
  by (simp add: categorize_by_keywords_def scan_keywords_iff Let_def)

theorem categorize_by_keywords_correct_witness:
  "categorize_by_keywords lower_ascii (cp ''New '' @ [28145, 24230, 23398, 20064] @ cp '' model'') = cp ''AI'' \<and>
   categorize_by_keywords lower_ascii (cp ''Bank on '' @ [21306, 22359, 38142]) = [31185, 25216] \<and>
   categorize_by_keywords lower_ascii (cp ''Weekly sports'') = cp ''AI/'' @ [31185, 25216] \<and>
   categorize_by_keywords lower_ascii (cp ''Spain wins'') = cp ''AI'' \<and>
   (\<exists>keyword\<in>set ai_keywords.
      sublist (lower_ascii keyword) (lower_ascii (cp ''Spain wins'')))"
proof -
  have e1: "categorize_by_keywords lower_ascii
      (cp ''New '' @ [28145, 24230, 23398, 20064] @ cp '' model'') = cp ''AI''"
    by (simp add: categorize_by_keywords_def ai_keywords_def tech_keywords_def lower_ascii_def
        cp_simps Let_def)
  have e2: "categorize_by_keywords lower_ascii (cp ''Bank on '' @ [21306, 22359, 38142])
      = [31185, 25216]"
    by (simp add: categorize_by_keywords_def ai_keywords_def tech_keywords_def lower_ascii_def
        cp_simps Let_def)
  have e3: "categorize_by_keywords lower_ascii (cp ''Weekly sports'') = cp ''AI/'' @ [31185, 25216]"
    by (simp add: categorize_by_keywords_def ai_keywords_def tech_keywords_def lower_ascii_def
        cp_simps Let_def)
  have e4: "categorize_by_keywords lower_ascii (cp ''Spain wins'') = cp ''AI''"
    by (simp add: categorize_by_keywords_def ai_keywords_def tech_keywords_def lower_ascii_def
        cp_simps Let_def)
  have "\<exists>keyword\<in>set ai_keywords.
      sublist (lower_ascii keyword) (lower_ascii (cp ''Spain wins''))"
    using categorize_by_keywords_correct [of lower_ascii "cp ''Spain wins''"] e4
    by (simp add: cp_simps split: if_splits)
  then show ?thesis
    using e1 e2 e3 e4 by (intro conjI)
qed


section \<open>Properties of the notification dispatcher\<close>

lemma show_news_notification_cases:
  "fst (show_news_notification env k m n) \<longleftrightarrow>
     notification_available env \<and> thread_starts env k"
  "filter is_toast (trace (snd (show_news_notification env k m n))) =
     filter is_toast (trace m) @
       (if notification_available env \<and> thread_starts env k then [toast_of n] else [])"
  by (simp_all add: show_news_notification_def toast_of_def Let_def)

lemma notify_loop_count_and_order:
  "0 \<le> delay \<and> delay \<le> sleep_max env \<Longrightarrow>
   \<exists>m'. notify_loop env delay len k items c m = (Inr (c + length (dispatched env k items)), m') \<and>
     filter is_toast (trace m') = filter is_toast (trace m) @ map toast_of (dispatched env k items)"
proof (induction items arbitrary: k c m)
  case Nil
  show ?case by simp
next
  case (Cons x xs)
  obtain b m1 where sn: "show_news_notification env k m x = (b, m1)"
    by (cases "show_news_notification env k m x")
  have b: "b \<longleftrightarrow> notification_available env \<and> thread_starts env k"
    using show_news_notification_cases(1) [of env k m x] sn by simp
  have t1: "filter is_toast (trace m1) = filter is_toast (trace m) @
       (if notification_available env \<and> thread_starts env k then [toast_of x] else [])"
    using show_news_notification_cases(2) [of env k m x] sn by simp
  show ?case
  proof (cases b)
    case False
    have step: "notify_loop env delay len k (x # xs) c m = notify_loop env delay len (k + 1) xs c m1"
      using False by (simp add: sn)
    obtain m' where "notify_loop env delay len (k + 1) xs c m1
          = (Inr (c + length (dispatched env (k + 1) xs)), m')"
       "filter is_toast (trace m') = filter is_toast (trace m1) @ map toast_of (dispatched env (k + 1) xs)"
      using Cons.IH [OF Cons.prems, where k = "k + 1" and c = c and m = m1] by blast
    then show ?thesis
      using False b step t1 by simp
  next
    case True
    define m2 where "m2 = (if c + 1 < len then m1\<lparr>trace := trace m1 @ [Sleep delay]\<rparr> else m1)"
    have step: "notify_loop env delay len k (x # xs) c m
        = notify_loop env delay len (k + 1) xs (c + 1) m2"
      using True Cons.prems by (simp add: sn m2_def time_sleep_def)
    have t2: "filter is_toast (trace m2) = filter is_toast (trace m) @ [toast_of x]"
      using t1 True b by (simp add: m2_def)
    obtain m' where "notify_loop env delay len (k + 1) xs (c + 1) m2
          = (Inr (c + 1 + length (dispatched env (k + 1) xs)), m')"
       "filter is_toast (trace m') = filter is_toast (trace m2) @ map toast_of (dispatched env (k + 1) xs)"
      using Cons.IH [OF Cons.prems, where k = "k + 1" and c = "c + 1" and m = m2] by blast
    then show ?thesis
      using True b step t2 by simp
  qed
qed

text \<open>
  For a delay that \<open>time.sleep\<close> accepts, the batch returns the number of dispatched
  notifications, and the toasts are raised in input order, one for every item whose
  dispatch succeeds: a failed dispatch does not stop the items after it.
\<close>

lemma show_multiple_count_and_order:
  assumes "0 \<le> delay \<and> delay \<le> sleep_max env"
  shows "\<exists>m'. show_multiple_news_notifications env m news_items delay
            = (Inr (length (dispatched env 0 news_items)), m') \<and>
          filter is_toast (trace m')
            = filter is_toast (trace m) @ map toast_of (dispatched env 0 news_items)"
proof (cases "news_items = []")
  case True
  then show ?thesis by (simp add: show_multiple_news_notifications_def)
next
  case False
  then show ?thesis
    using assms notify_loop_count_and_order [where env = env and delay = delay
        and len = "length news_items" and k = 0 and items = news_items and c = 0 and m = m]
    by (simp add: show_multiple_news_notifications_def)
qed

text \<open>
  C8. The claim asks for no delay after the last item. The guard of the sleep
  compares \<open>success_count\<close>, not the position, with \<open>len(news_items)\<close>: in a batch of
  two items where the first dispatch fails and the second succeeds, the count after
  the last item is 1, which is less than 2, and the dispatcher sleeps after the last
  item.
\<close>

theorem show_multiple_sleeps_after_last:
  "show_multiple_news_notifications
     \<lparr>notification_available = True, thread_starts = (\<lambda>k. k \<noteq> 0), sleep_max = 4294967\<rparr>
     \<lparr>active_notifications = Map.empty, trace = []\<rparr>
     [\<lparr>item_id = cp ''n1'', title = cp ''A'', link = cp ''l1'', source = cp ''s1'',
        published_time = 1, category = cp ''AI'', is_read = False\<rparr>,
      \<lparr>item_id = cp ''n2'', title = cp ''B'', link = cp ''l2'', source = cp ''s2'',
        published_time = 2, category = cp ''AI'', is_read = False\<rparr>] 2
   = (Inr 1,
      \<lparr>active_notifications = [cp ''n1'' \<mapsto> (cp ''l1'', cp ''n1''), cp ''n2'' \<mapsto> (cp ''l2'', cp ''n2'')],
       trace = [Toast (cp ''s2 - AI'') (cp ''B'') (cp ''l2'', cp ''n2''), Sleep 2]\<rparr>)"
  by (simp add: show_multiple_news_notifications_def show_news_notification_def time_sleep_def
      cp_simps Let_def)


section \<open>Properties of the settings store\<close>

lemma save_setting_stores:
  assumes "dumps v = Some t" "bindable key" "bindable t"
  shows "save_setting bindable dumps Healthy settings key v = (Inr True, settings(key \<mapsto> t))"
  using assms by (simp add: save_setting_def split: option.splits)

lemma save_setting_refuses:
  assumes "st \<noteq> CannotConnect"
    and "\<not> (st = Healthy \<and> bindable key \<and> (\<exists>t. dumps v = Some t \<and> bindable t))"
  shows "save_setting bindable dumps st settings key v = (Inr False, settings)"
  using assms by (cases st) (auto simp: save_setting_def split: option.splits)

lemma get_setting_stored:
  assumes "bindable key"
  shows "get_setting bindable loads Healthy (settings(key \<mapsto> t)) key dflt
     = Inr (case loads t of Some w \<Rightarrow> w | None \<Rightarrow> dflt)"
  using assms by (simp add: get_setting_def split: option.splits)

lemma sample_texts:
  "utf8_encodable sample_dict_text" "utf8_encodable (cp ''[1, 2]'')" "utf8_encodable (cp ''k'')"
  "utf8_encodable (cp ''missing'')" "sample_dict_text \<noteq> cp ''[1, 2]''"
  "sample_dict_text \<noteq> cp ''oops''" "cp ''[1, 2]'' \<noteq> cp ''oops''"
  by (simp_all add: utf8_encodable_def sample_dict_text_def cp_simps)

text \<open>
  The claim of a round trip for every JSON-serializable value fails on a tuple:
  \<open>json.dumps\<close> accepts \<open>(1, 2)\<close> and writes \<open>[1, 2]\<close>, which \<open>json.loads\<close> reads
  as the list \<open>[1, 2]\<close>, and a list is not equal to a tuple.
\<close>

theorem setting_round_trip_tuple_counterexample:
  "sample_dumps (PTuple [PInt 1, PInt 2]) = Some (cp ''[1, 2]'') \<and>
   fst (save_setting utf8_encodable sample_dumps Healthy Map.empty (cp ''k'')
          (PTuple [PInt 1, PInt 2])) = Inr True \<and>
   get_setting utf8_encodable sample_loads Healthy
     (snd (save_setting utf8_encodable sample_dumps Healthy Map.empty (cp ''k'')
             (PTuple [PInt 1, PInt 2]))) (cp ''k'') PNone
     = Inr (PList [PInt 1, PInt 2]) \<and>
   PList [PInt 1, PInt 2] \<noteq> PTuple [PInt 1, PInt 2]"
proof -
  have d: "sample_dumps (PTuple [PInt 1, PInt 2]) = Some (cp ''[1, 2]'')"
    by (simp add: sample_dumps_def sample_dict_def)
  have l: "sample_loads (cp ''[1, 2]'') = Some (PList [PInt 1, PInt 2])"
    using sample_texts(5) by (simp add: sample_loads_def)
  have s: "save_setting utf8_encodable sample_dumps Healthy Map.empty (cp ''k'')
          (PTuple [PInt 1, PInt 2]) = (Inr True, [cp ''k'' \<mapsto> cp ''[1, 2]''])"
    using save_setting_stores [of sample_dumps "PTuple [PInt 1, PInt 2]" "cp ''[1, 2]''"
        utf8_encodable "cp ''k''" Map.empty] d sample_texts(2) sample_texts(3)
    by blast
  have g: "get_setting utf8_encodable sample_loads Healthy [cp ''k'' \<mapsto> cp ''[1, 2]'']
      (cp ''k'') PNone = Inr (PList [PInt 1, PInt 2])"
    using get_setting_stored [of utf8_encodable "cp ''k''" sample_loads Map.empty
        "cp ''[1, 2]''" PNone] sample_texts(3) l
    by simp
  show ?thesis
    using d s g by simp
qed

text \<open>
  When \<open>sqlite3.connect\<close> itself fails, \<open>get_setting\<close> does not return the default:
  the \<open>finally\<close> clause reads the unassigned \<open>conn\<close>.
\<close>

lemma get_setting_cannot_connect:
  "get_setting bindable loads CannotConnect settings key dflt = Inl UnboundLocalError"
  by (simp add: get_setting_def)

text \<open>
  C5 (amended). On a healthy connection, for every key that sqlite3 can bind and every
  value for which \<open>json.dumps\<close> returns a text (one that sqlite3 can bind),
  \<open>save_setting\<close> returns \<open>True\<close> and stores that text under the key, and a following
  \<open>get_setting\<close> returns what \<open>json.loads\<close> reads from that text, or the default when
  \<open>json.loads\<close> raises on it: the original value whenever the round trip of the
  \<open>json\<close> module returns the original value. Whenever the connection opens and one
  of these conditions fails (\<open>json.dumps\<close> raises, the key or the text cannot be
  bound, the statements fail), \<open>save_setting\<close> returns \<open>False\<close> and stores nothing.
  \<open>get_setting\<close> on a key that is not stored returns the caller's default, as it
  does when the statements fail, when the key cannot be bound and when the stored
  text does not parse; whenever the connection opens, \<open>get_setting\<close> returns a value
  and raises nothing.
\<close>

theorem setting_round_trip:
  "(dumps v = Some t \<and> bindable key \<and> bindable t \<longrightarrow>
      save_setting bindable dumps Healthy settings key v = (Inr True, settings(key \<mapsto> t)) \<and>
      get_setting bindable loads Healthy
        (snd (save_setting bindable dumps Healthy settings key v)) key dflt
        = Inr (case loads t of Some w \<Rightarrow> w | None \<Rightarrow> dflt) \<and>
      (loads t = Some v \<longrightarrow>
         get_setting bindable loads Healthy
           (snd (save_setting bindable dumps Healthy settings key v)) key dflt = Inr v)) \<and>
   (st \<noteq> CannotConnect \<and>
    \<not> (st = Healthy \<and> bindable key \<and> (\<exists>t'. dumps v = Some t' \<and> bindable t')) \<longrightarrow>
      save_setting bindable dumps st settings key v = (Inr False, settings)) \<and>
   (settings key = None \<longrightarrow> get_setting bindable loads Healthy settings key dflt = Inr dflt) \<and>
   get_setting bindable loads StatementFails settings key dflt = Inr dflt \<and>
   (\<not> bindable key \<longrightarrow> get_setting bindable loads Healthy settings key dflt = Inr dflt) \<and>
   (settings key = Some t' \<and> loads t' = None \<longrightarrow>
      get_setting bindable loads Healthy settings key dflt = Inr dflt) \<and>
   (st \<noteq> CannotConnect \<longrightarrow>
      (\<exists>r. get_setting bindable loads st settings key dflt = Inr r))"
proof (intro conjI impI)
  assume a: "dumps v = Some t \<and> bindable key \<and> bindable t"
  show s: "save_setting bindable dumps Healthy settings key v = (Inr True, settings(key \<mapsto> t))"
    using a by (simp add: save_setting_stores)
  show g: "get_setting bindable loads Healthy
        (snd (save_setting bindable dumps Healthy settings key v)) key dflt
        = Inr (case loads t of Some w \<Rightarrow> w | None \<Rightarrow> dflt)"
    using a by (simp add: s get_setting_stored)
  assume "loads t = Some v"
  then show "get_setting bindable loads Healthy
           (snd (save_setting bindable dumps Healthy settings key v)) key dflt = Inr v"
    using g by simp
next
  assume "st \<noteq> CannotConnect \<and>
    \<not> (st = Healthy \<and> bindable key \<and> (\<exists>t'. dumps v = Some t' \<and> bindable t'))"
  then show "save_setting bindable dumps st settings key v = (Inr False, settings)"
    using save_setting_refuses [of st bindable key dumps v settings] by blast
next
  assume "settings key = None"
  then show "get_setting bindable loads Healthy settings key dflt = Inr dflt"
    by (simp add: get_setting_def)
next
  show "get_setting bindable loads StatementFails settings key dflt = Inr dflt"
    by (simp add: get_setting_def)
next
  assume "\<not> bindable key"
  then show "get_setting bindable loads Healthy settings key dflt = Inr dflt"
    by (simp add: get_setting_def)
next
  assume "settings key = Some t' \<and> loads t' = None"
  then show "get_setting bindable loads Healthy settings key dflt = Inr dflt"
    by (simp add: get_setting_def)
next
  assume "st \<noteq> CannotConnect"
  then show "\<exists>r. get_setting bindable loads st settings key dflt = Inr r"
    by (cases st) (simp_all add: get_setting_def split: option.splits)
qed

theorem setting_round_trip_witness:
  "sample_dumps sample_dict = Some sample_dict_text \<and>
   sample_loads sample_dict_text = Some sample_dict \<and>
   utf8_encodable (cp ''k'') \<and> utf8_encodable sample_dict_text \<and>
   save_setting utf8_encodable sample_dumps Healthy Map.empty (cp ''k'') sample_dict
     = (Inr True, [cp ''k'' \<mapsto> sample_dict_text]) \<and>
   get_setting utf8_encodable sample_loads Healthy
     (snd (save_setting utf8_encodable sample_dumps Healthy Map.empty (cp ''k'') sample_dict))
     (cp ''k'') PNone = Inr sample_dict \<and>
   get_setting utf8_encodable sample_loads Healthy [cp ''k'' \<mapsto> sample_dict_text]
     (cp ''missing'') (PInt 42) = Inr (PInt 42) \<and>
   get_setting utf8_encodable sample_loads Healthy [cp ''k'' \<mapsto> cp ''oops'']
     (cp ''k'') (PInt 42) = Inr (PInt 42) \<and>
   get_setting utf8_encodable sample_loads StatementFails [cp ''k'' \<mapsto> sample_dict_text]
     (cp ''k'') (PInt 42) = Inr (PInt 42) \<and>
   save_setting utf8_encodable sample_dumps Healthy Map.empty [55296] sample_dict
     = (Inr False, Map.empty)"
proof -
  have d: "sample_dumps sample_dict = Some sample_dict_text"
    by (simp add: sample_dumps_def)
  have l: "sample_loads sample_dict_text = Some sample_dict"
    by (simp add: sample_loads_def)
  have lo: "sample_loads (cp ''oops'') = None"
    using sample_texts(6) sample_texts(7) by (simp add: sample_loads_def)
  have km: "cp ''missing'' \<noteq> cp ''k''"
    by (simp add: cp_simps)
  have nb: "\<not> utf8_encodable [55296]"
    by (simp add: utf8_encodable_def)
  note rt = setting_round_trip [where bindable = utf8_encodable and dumps = sample_dumps
      and loads = sample_loads and v = sample_dict and t = sample_dict_text]
  have a: "sample_dumps sample_dict = Some sample_dict_text \<and> utf8_encodable (cp ''k'') \<and>
      utf8_encodable sample_dict_text"
    using d sample_texts(1) sample_texts(3) by simp
  have c1: "save_setting utf8_encodable sample_dumps Healthy Map.empty (cp ''k'') sample_dict
       = (Inr True, [cp ''k'' \<mapsto> sample_dict_text])"
    using rt [where key = "cp ''k''" and settings = Map.empty, THEN conjunct1] a by blast
  have c2: "get_setting utf8_encodable sample_loads Healthy
     (snd (save_setting utf8_encodable sample_dumps Healthy Map.empty (cp ''k'') sample_dict))
     (cp ''k'') PNone = Inr sample_dict"
    using rt [where key = "cp ''k''" and settings = Map.empty and dflt = PNone, THEN conjunct1]
      a l by blast
  have c3: "get_setting utf8_encodable sample_loads Healthy [cp ''k'' \<mapsto> sample_dict_text]
     (cp ''missing'') (PInt 42) = Inr (PInt 42)"
    using rt [where key = "cp ''missing''" and settings = "[cp ''k'' \<mapsto> sample_dict_text]"
        and dflt = "PInt 42", THEN conjunct2, THEN conjunct2, THEN conjunct1] km
    by simp
  have c4: "get_setting utf8_encodable sample_loads Healthy [cp ''k'' \<mapsto> cp ''oops'']
     (cp ''k'') (PInt 42) = Inr (PInt 42)"
    using rt [where key = "cp ''k''" and settings = "[cp ''k'' \<mapsto> cp ''oops'']"
        and dflt = "PInt 42" and t' = "cp ''oops''",
        THEN conjunct2, THEN conjunct2, THEN conjunct2, THEN conjunct2, THEN conjunct2,
        THEN conjunct1] lo
    by simp
  have c5: "get_setting utf8_encodable sample_loads StatementFails
     [cp ''k'' \<mapsto> sample_dict_text] (cp ''k'') (PInt 42) = Inr (PInt 42)"
    by (rule rt [THEN conjunct2, THEN conjunct2, THEN conjunct2, THEN conjunct1])
  have c6: "save_setting utf8_encodable sample_dumps Healthy Map.empty [55296] sample_dict
     = (Inr False, Map.empty)"
    using rt [where key = "[55296]" and settings = Map.empty and st = Healthy,
        THEN conjunct2, THEN conjunct1] nb
    by blast
  show ?thesis
    using d l sample_texts(1) sample_texts(3) c1 c2 c3 c4 c5 c6 by (intro conjI)
qed

section \<open>Properties of the fetch adapter\<close>
















end
